theory Spec2Isabelle
  imports Main "HOL-Library.Word"
begin

unbundle bit_operations_syntax

section \<open>Corrade::Utility::JsonToken, as declared in Json.h\<close>

text \<open>
  The development follows \<^verbatim>\<open>src/Corrade/Utility/Json.h\<close>. The header holds the token
  record, its bit layout and the inline accessors \<^verbatim>\<open>type()\<close>, \<^verbatim>\<open>isParsed()\<close>,
  \<^verbatim>\<open>parsedType()\<close>, \<^verbatim>\<open>firstChild()\<close>, \<^verbatim>\<open>next()\<close> and the typed getters
  \<^verbatim>\<open>asNull()\<close> ... \<^verbatim>\<open>asSize()\<close>. The tokenizer, \<^verbatim>\<open>childCount()\<close>, \<^verbatim>\<open>data()\<close>,
  \<^verbatim>\<open>asString()\<close> and the \<^verbatim>\<open>parse*()\<close> functions are only declared and documented there;
  their bodies are in Json.cpp.

  The main model is the 64-bit build (\<^verbatim>\<open>CORRADE_TARGET_32BIT\<close> not defined). The accessors
  of the 32-bit build that differ in substance are modelled next to it, with the suffix
  \<open>32\<close>.
\<close>

subsection \<open>The token record (64-bit build)\<close>

text \<open>
  \<^verbatim>\<open>const char* _data; std::size_t _sizeFlagsParsedTypeType; union { std::uint64_t _childCount;
  bool _parsedBool; double _parsedDouble; ... };\<close>

  The pointer \<^verbatim>\<open>_data\<close> is the offset of the token's first byte in the input string. The
  union is the 64 bits it occupies.
\<close>

record JsonToken =
  m_data :: nat
  m_sizeFlagsParsedTypeType :: "64 word"
  m_childCount :: "64 word"

text \<open>The private enum of masks and flags.\<close>

definition TypeMask :: "64 word" where "TypeMask = push_bit 61 0x07"
definition TypeObject :: "64 word" where "TypeObject = push_bit 61 1"
definition TypeArray :: "64 word" where "TypeArray = push_bit 61 2"
definition TypeNull :: "64 word" where "TypeNull = push_bit 61 3"
definition TypeBool :: "64 word" where "TypeBool = push_bit 61 4"
definition TypeNumber :: "64 word" where "TypeNumber = push_bit 61 5"
definition TypeString :: "64 word" where "TypeString = push_bit 61 6"

definition ParsedTypeMask :: "64 word" where "ParsedTypeMask = push_bit 58 0x07"
definition ParsedTypeNone :: "64 word" where "ParsedTypeNone = push_bit 58 0"
definition ParsedTypeDouble :: "64 word" where "ParsedTypeDouble = push_bit 58 1"
definition ParsedTypeFloat :: "64 word" where "ParsedTypeFloat = push_bit 58 2"
definition ParsedTypeUnsignedInt :: "64 word" where "ParsedTypeUnsignedInt = push_bit 58 3"
definition ParsedTypeInt :: "64 word" where "ParsedTypeInt = push_bit 58 4"
definition ParsedTypeUnsignedLong :: "64 word" where "ParsedTypeUnsignedLong = push_bit 58 5"
definition ParsedTypeLong :: "64 word" where "ParsedTypeLong = push_bit 58 6"
definition ParsedTypeOther :: "64 word" where "ParsedTypeOther = push_bit 58 7"

definition FlagStringKey :: "64 word" where "FlagStringKey = push_bit 57 1"
definition FlagStringGlobal :: "64 word" where "FlagStringGlobal = push_bit 56 1"
definition FlagStringEscaped :: "64 word" where "FlagStringEscaped = push_bit 55 1"

definition SizeMask :: "64 word" where "SizeMask = push_bit 55 1 - 1"

text \<open>
  The public enums \<^verbatim>\<open>JsonToken::Type\<close> and \<^verbatim>\<open>JsonToken::ParsedType\<close> have the underlying
  type \<^verbatim>\<open>std::uint64_t\<close> and the values of the private flags; a cast \<^verbatim>\<open>Type(x)\<close> keeps the
  value \<open>x\<close>, enumerator or not. An enum value is therefore its 64-bit word.
\<close>

type_synonym Type = "64 word"
type_synonym ParsedType = "64 word"

definition Type_Object :: Type where "Type_Object = push_bit 61 1"
definition Type_Array :: Type where "Type_Array = push_bit 61 2"
definition Type_Null :: Type where "Type_Null = push_bit 61 3"
definition Type_Bool :: Type where "Type_Bool = push_bit 61 4"
definition Type_Number :: Type where "Type_Number = push_bit 61 5"
definition Type_String :: Type where "Type_String = push_bit 61 6"

definition ParsedType_Double :: ParsedType where "ParsedType_Double = push_bit 58 1"
definition ParsedType_Float :: ParsedType where "ParsedType_Float = push_bit 58 2"
definition ParsedType_UnsignedInt :: ParsedType where "ParsedType_UnsignedInt = push_bit 58 3"
definition ParsedType_Int :: ParsedType where "ParsedType_Int = push_bit 58 4"
definition ParsedType_UnsignedLong :: ParsedType where "ParsedType_UnsignedLong = push_bit 58 5"
definition ParsedType_Long :: ParsedType where "ParsedType_Long = push_bit 58 6"
definition ParsedType_Size :: ParsedType where "ParsedType_Size = ParsedType_UnsignedLong"
definition ParsedType_Other :: ParsedType where "ParsedType_Other = push_bit 58 7"

text \<open>\<^verbatim>\<open>constexpr explicit JsonToken(ValueInitT)\<close>: every member value-initialised.\<close>

definition JsonToken_ValueInit :: JsonToken where
  "JsonToken_ValueInit = \<lparr>m_data = 0, m_sizeFlagsParsedTypeType = 0, m_childCount = 0\<rparr>"

text \<open>
  The other members of the union, read off the 64 bits they share with \<^verbatim>\<open>_childCount\<close>,
  low bytes first: \<^verbatim>\<open>_parsedBool\<close> is the first byte, the 32-bit members are the low half.
  A \<^verbatim>\<open>double\<close> and a \<^verbatim>\<open>float\<close> are their IEEE 754 bit patterns, the signed integers are
  read in two's complement, and \<^verbatim>\<open>_parsedString\<close> is an address.
\<close>

definition m_parsedBool :: "JsonToken \<Rightarrow> bool" where
  "m_parsedBool t = ((ucast (m_childCount t) :: 8 word) \<noteq> 0)"

definition m_parsedDouble :: "JsonToken \<Rightarrow> 64 word" where
  "m_parsedDouble t = m_childCount t"

definition m_parsedFloat :: "JsonToken \<Rightarrow> 32 word" where
  "m_parsedFloat t = ucast (m_childCount t)"

definition m_parsedUnsignedLong :: "JsonToken \<Rightarrow> 64 word" where
  "m_parsedUnsignedLong t = m_childCount t"

definition m_parsedLong :: "JsonToken \<Rightarrow> int" where
  "m_parsedLong t = sint (m_childCount t)"

definition m_parsedUnsignedInt :: "JsonToken \<Rightarrow> 32 word" where
  "m_parsedUnsignedInt t = ucast (m_childCount t)"

definition m_parsedInt :: "JsonToken \<Rightarrow> int" where
  "m_parsedInt t = sint (ucast (m_childCount t) :: 32 word)"

definition m_parsedString :: "JsonToken \<Rightarrow> 64 word" where
  "m_parsedString t = m_childCount t"

subsection \<open>type(), isParsed(), parsedType()\<close>

definition type :: "JsonToken \<Rightarrow> Type" where
  "type t = m_sizeFlagsParsedTypeType t AND TypeMask"

definition isParsed :: "JsonToken \<Rightarrow> bool" where
  "isParsed t = (m_sizeFlagsParsedTypeType t AND ParsedTypeMask \<noteq> 0)"

definition parsedType :: "JsonToken \<Rightarrow> ParsedType" where
  "parsedType t = m_sizeFlagsParsedTypeType t AND ParsedTypeMask"

subsection \<open>The 32-bit build\<close>

text \<open>
  \<^verbatim>\<open>const char* _data; std::size_t _sizeParsedType; union { std::uint64_t
  _childCountFlagsTypeNan; ... };\<close> with \<^verbatim>\<open>std::size_t\<close> of 32 bits. Type and flags
  sit in the payload bits of a NaN; a parsed number has no NaN there and keeps its parsed
  type in the size word.
\<close>

record JsonToken32 =
  m32_data :: nat
  m32_sizeParsedType :: "32 word"
  m32_childCountFlagsTypeNan :: "64 word"

definition NanMask :: "64 word" where "NanMask = push_bit 52 0x7ff"
definition ChildCountMask :: "64 word" where "ChildCountMask = 0xffffffff"

definition TypeMask32 :: "64 word" where "TypeMask32 = push_bit 49 0x07"
definition TypeObject32 :: "64 word" where "TypeObject32 = push_bit 49 1"
definition TypeArray32 :: "64 word" where "TypeArray32 = push_bit 49 2"
definition TypeNull32 :: "64 word" where "TypeNull32 = push_bit 49 3"
definition TypeBool32 :: "64 word" where "TypeBool32 = push_bit 49 4"
definition TypeNumber32 :: "64 word" where "TypeNumber32 = push_bit 49 5"
definition TypeString32 :: "64 word" where "TypeString32 = push_bit 49 6"

definition FlagParsed32 :: "64 word" where "FlagParsed32 = push_bit 48 1"
definition FlagStringKey32 :: "64 word" where "FlagStringKey32 = push_bit 47 1"
definition FlagStringGlobal32 :: "64 word" where "FlagStringGlobal32 = push_bit 46 1"
definition FlagStringEscaped32 :: "64 word" where "FlagStringEscaped32 = push_bit 45 1"

definition ParsedTypeMask32 :: "32 word" where "ParsedTypeMask32 = push_bit 29 0x07"
definition SizeMask32 :: "32 word" where "SizeMask32 = push_bit 28 1 - 1"

definition Type32_Number :: Type where "Type32_Number = push_bit 49 5"

definition ParsedType32_None :: ParsedType where "ParsedType32_None = 0"
definition ParsedType32_Other :: ParsedType where "ParsedType32_Other = push_bit 29 7"



definition exampleNull32 :: JsonToken32 where
  "exampleNull32 =
     \<lparr>m32_data = 0, m32_sizeParsedType = 4,
      m32_childCountFlagsTypeNan = NanMask OR TypeNull32\<rparr>"

definition type32 :: "JsonToken32 \<Rightarrow> Type" where
  "type32 t =
     (if m32_childCountFlagsTypeNan t AND NanMask = NanMask
      then m32_childCountFlagsTypeNan t AND TypeMask32
      else Type32_Number)"

definition isParsed32 :: "JsonToken32 \<Rightarrow> bool" where
  "isParsed32 t =
     (if m32_childCountFlagsTypeNan t AND NanMask = NanMask
      then m32_childCountFlagsTypeNan t AND FlagParsed32 \<noteq> 0
      else True)"

definition parsedType32 :: "JsonToken32 \<Rightarrow> ParsedType" where
  "parsedType32 t =
     (if m32_childCountFlagsTypeNan t AND NanMask = NanMask
      then (if m32_childCountFlagsTypeNan t AND FlagParsed32 \<noteq> 0
            then ParsedType32_Other else ParsedType32_None)
      else ucast (m32_sizeParsedType t AND ParsedTypeMask32))"

subsection \<open>The typed getters\<close>

text \<open>
  \<^verbatim>\<open>CORRADE_ASSERT(condition, message, returnValue)\<close> is defined in Assert.h, which is not
  part of the sources at hand. It is taken in its default configuration: when the
  condition is false the message is printed and the program aborts. A getter therefore
  returns either the failed assertion with its message, or a value.

  The message is the sequence of things streamed to the error output.
\<close>

datatype printed = Text string | PrintedType Type | PrintedParsedType ParsedType

datatype assertion = AssertionFailed "printed list"

definition asNull :: "JsonToken \<Rightarrow> assertion + unit" where
  "asNull t =
     (if type t = Type_Null \<and> isParsed t then Inr ()
      else Inl (AssertionFailed [Text ''Utility::JsonToken::asNull(): token is'',
             Text (if isParsed t then ''a parsed'' else ''an unparsed''), PrintedType (type t)]))"

definition asBool :: "JsonToken \<Rightarrow> assertion + bool" where
  "asBool t =
     (if type t = Type_Bool \<and> isParsed t then Inr (m_parsedBool t)
      else Inl (AssertionFailed [Text ''Utility::JsonToken::asBool(): token is'',
             Text (if isParsed t then ''a parsed'' else ''an unparsed''), PrintedType (type t)]))"

definition asDouble :: "JsonToken \<Rightarrow> assertion + 64 word" where
  "asDouble t =
     (if parsedType t = ParsedType_Double then Inr (m_parsedDouble t)
      else Inl (AssertionFailed [Text ''Utility::JsonToken::asDouble(): token is a'',
             PrintedType (type t), Text ''parsed as'', PrintedParsedType (parsedType t)]))"

definition asFloat :: "JsonToken \<Rightarrow> assertion + 32 word" where
  "asFloat t =
     (if parsedType t = ParsedType_Float then Inr (m_parsedFloat t)
      else Inl (AssertionFailed [Text ''Utility::JsonToken::asFloat(): token is a'',
             PrintedType (type t), Text ''parsed as'', PrintedParsedType (parsedType t)]))"

definition asUnsignedInt :: "JsonToken \<Rightarrow> assertion + 32 word" where
  "asUnsignedInt t =
     (if parsedType t = ParsedType_UnsignedInt then Inr (m_parsedUnsignedInt t)
      else Inl (AssertionFailed [Text ''Utility::JsonToken::asUnsignedInt(): token is a'',
             PrintedType (type t), Text ''parsed as'', PrintedParsedType (parsedType t)]))"

definition asInt :: "JsonToken \<Rightarrow> assertion + int" where
  "asInt t =
     (if parsedType t = ParsedType_Int then Inr (m_parsedInt t)
      else Inl (AssertionFailed [Text ''Utility::JsonToken::asInt(): token is a'',
             PrintedType (type t), Text ''parsed as'', PrintedParsedType (parsedType t)]))"

definition asUnsignedLong :: "JsonToken \<Rightarrow> assertion + 64 word" where
  "asUnsignedLong t =
     (if parsedType t = ParsedType_UnsignedLong then Inr (m_parsedUnsignedLong t)
      else Inl (AssertionFailed [Text ''Utility::JsonToken::asUnsignedLong(): token is a'',
             PrintedType (type t), Text ''parsed as'', PrintedParsedType (parsedType t)]))"

definition asLong :: "JsonToken \<Rightarrow> assertion + int" where
  "asLong t =
     (if parsedType t = ParsedType_Long then Inr (m_parsedLong t)
      else Inl (AssertionFailed [Text ''Utility::JsonToken::asLong(): token is a'',
             PrintedType (type t), Text ''parsed as'', PrintedParsedType (parsedType t)]))"

definition asSize :: "JsonToken \<Rightarrow> assertion + 64 word" where
  "asSize t =
     (if parsedType t = ParsedType_Size then Inr (m_parsedUnsignedLong t)
      else Inl (AssertionFailed [Text ''Utility::JsonToken::asSize(): token is a'',
             PrintedType (type t), Text ''parsed as'', PrintedParsedType (parsedType t)]))"

text \<open>
  Modelled from the spec: \<^verbatim>\<open>asString()\<close> is declared in Json.h and defined in Json.cpp,
  which is not among the sources. Json.h documents that it "expects that the token is a
  Type::String and isParsed() is set"; the spec (section 4.4) has every typed getter
  require the matching parsed kind and fail fast otherwise. The string a parsed token
  stands for (a view on the input, or the unescaped copy the token owns) is the parameter
  \<open>parsedString\<close>.
\<close>

definition asString :: "(JsonToken \<Rightarrow> string) \<Rightarrow> JsonToken \<Rightarrow> assertion + string" where
  "asString parsedString t =
     (if type t = Type_String \<and> isParsed t then Inr (parsedString t)
      else Inl (AssertionFailed [Text ''Utility::JsonToken::asString(): token is'',
             Text (if isParsed t then ''a parsed'' else ''an unparsed''), PrintedType (type t)]))"


text \<open>A getter fails fast when its result is a failed assertion.\<close>

definition failsFast :: "assertion + 'a \<Rightarrow> bool" where
  "failsFast r = (\<exists>message. r = Inl (AssertionFailed message))"

text \<open>A parsed \<^verbatim>\<open>true\<close>: a Bool token of 4 bytes, parsed, holding 1.\<close>

definition exampleBool :: JsonToken where
  "exampleBool =
     \<lparr>m_data = 0, m_sizeFlagsParsedTypeType = TypeBool OR ParsedTypeOther OR 4, m_childCount = 1\<rparr>"

subsection \<open>firstChild() and next()\<close>

text \<open>
  A token lives in the token array of its \<^verbatim>\<open>Json\<close> instance, and \<^verbatim>\<open>this\<close> is its position
  there. \<^verbatim>\<open>firstChild()\<close> answers with a position or with \<^verbatim>\<open>nullptr\<close> (\<open>None\<close>); it reads
  only the token itself.
\<close>

definition firstChild :: "JsonToken list \<Rightarrow> nat \<Rightarrow> nat option" where
  "firstChild tokens this =
     (let t = tokens ! this in
      if ((m_sizeFlagsParsedTypeType t AND TypeMask = TypeObject \<or>
           m_sizeFlagsParsedTypeType t AND TypeMask = TypeArray) \<and> m_childCount t \<noteq> 0) \<or>
         m_sizeFlagsParsedTypeType t AND FlagStringKey \<noteq> 0
      then Some (this + 1)
      else None)"

text \<open>
  Modelled from the spec: \<^verbatim>\<open>JsonToken::childCount()\<close> is declared in Json.h and defined in
  Json.cpp, which is not among the sources. The spec (section 3) has the descendant count
  as the "total number of tokens nested under this one (not just immediate children)",
  0 for a Null, Bool, Number and value String, "for Object/Array the full nested count",
  which is what the token stores, and for an object key "always 1 (its value subtree size
  + 1)". Json.h documents it as the "number of all child tokens, including nested token
  trees", says of a key that it "always returns 1", and warns that the function must be
  called on a token inside its array.

  For a key the two wordings differ once something is nested under the value. The model
  takes "its value subtree size + 1", the value token and all that is nested under it: it
  is the only reading under which \<^verbatim>\<open>next()\<close> of a key is "the next token at the same or
  higher level" and under which \<^verbatim>\<open>operator++\<close>, which is \<^verbatim>\<open>next()\<close>, takes an iterator from
  one key of an object to the following key. The value of a key is the token right after
  it; what is nested under the value is the count the value stores when it is an Object or
  Array, and nothing otherwise. Past the end of the array (a key is never the last token
  of a document) the model takes the value to hold nothing.
\<close>

definition childCount :: "JsonToken list \<Rightarrow> nat \<Rightarrow> nat" where
  "childCount tokens this =
     (let t = tokens ! this in
      if m_sizeFlagsParsedTypeType t AND TypeMask = TypeObject \<or>
         m_sizeFlagsParsedTypeType t AND TypeMask = TypeArray
      then unat (m_childCount t)
      else if m_sizeFlagsParsedTypeType t AND FlagStringKey \<noteq> 0
      then (if this + 1 < length tokens \<and>
               (m_sizeFlagsParsedTypeType (tokens ! (this + 1)) AND TypeMask = TypeObject \<or>
                m_sizeFlagsParsedTypeType (tokens ! (this + 1)) AND TypeMask = TypeArray)
            then unat (m_childCount (tokens ! (this + 1))) else 0) + 1
      else 0)"

text \<open>\<^verbatim>\<open>const JsonToken* next() const { return this + childCount() + 1; }\<close>\<close>

definition "next" :: "JsonToken list \<Rightarrow> nat \<Rightarrow> nat" where
  "next tokens this = this + childCount tokens this + 1"



subsection \<open>The token array of a document\<close>

text \<open>
  Modelled from the spec: the tokenizer is defined in Json.cpp, which is not among the
  sources; what follows is the layout of its result as section 3 of the spec and the
  class documentation in Json.h give it. "Object tokens have string keys as children,
  string keys have object values as children, arrays have array values as children and
  values themselves have no children", the tokens are "ordered in a depth-first manner",
  and the count stored in an Object or Array is the number of all tokens nested under it.

  A token tree is a token with the trees of its children; the token array is the pre-order
  listing of the tree. Only the type, the key flag and, for an Object or Array, the stored
  count are constrained: everything a later parse changes is free.
\<close>

datatype tree = Node JsonToken "tree list"

fun root :: "tree \<Rightarrow> JsonToken" where
  "root (Node t cs) = t"

fun tokens :: "tree \<Rightarrow> JsonToken list" where
  "tokens (Node t cs) = t # concat (map tokens cs)"

text \<open>All subtrees in pre-order: the \<open>i\<close>-th one is the subtree headed by token \<open>i\<close>.\<close>

fun subtrees :: "tree \<Rightarrow> tree list" where
  "subtrees (Node t cs) = Node t cs # concat (map subtrees cs)"

definition isKey :: "JsonToken \<Rightarrow> bool" where
  "isKey t = (m_sizeFlagsParsedTypeType t AND FlagStringKey \<noteq> 0)"

fun wellFormed :: "tree \<Rightarrow> bool" where
  "wellFormed (Node t cs) =
     ((if isKey t then
         type t = Type_String \<and> length cs = 1 \<and> (\<forall>c \<in> set cs. \<not> isKey (root c))
       else if type t = Type_Object then
         (\<forall>c \<in> set cs. isKey (root c)) \<and>
         unat (m_childCount t) = length (concat (map tokens cs))
       else if type t = Type_Array then
         (\<forall>c \<in> set cs. \<not> isKey (root c)) \<and>
         unat (m_childCount t) = length (concat (map tokens cs))
       else
         (type t = Type_Null \<or> type t = Type_Bool \<or> type t = Type_Number \<or>
          type t = Type_String) \<and> cs = [])
      \<and> (\<forall>c \<in> set cs. wellFormed c))"

text \<open>
  The document \<^verbatim>\<open>{"a":[1]}\<close>: an Object of 9 bytes at offset 0 with three tokens under it,
  the key \<^verbatim>\<open>"a"\<close> at offset 1, its value, an Array of 3 bytes at offset 5 with one token
  under it, and the Number at offset 6.
\<close>

definition exampleNumber :: JsonToken where
  "exampleNumber = \<lparr>m_data = 6, m_sizeFlagsParsedTypeType = TypeNumber OR 1, m_childCount = 0\<rparr>"

definition exampleArray :: JsonToken where
  "exampleArray =
     \<lparr>m_data = 5, m_sizeFlagsParsedTypeType = TypeArray OR ParsedTypeOther OR 3, m_childCount = 1\<rparr>"

definition exampleKey :: JsonToken where
  "exampleKey =
     \<lparr>m_data = 1, m_sizeFlagsParsedTypeType = TypeString OR FlagStringKey OR 3, m_childCount = 0\<rparr>"

definition exampleObject :: JsonToken where
  "exampleObject =
     \<lparr>m_data = 0, m_sizeFlagsParsedTypeType = TypeObject OR ParsedTypeOther OR 9, m_childCount = 3\<rparr>"

definition exampleDocument :: tree where
  "exampleDocument =
     Node exampleObject [Node exampleKey [Node exampleArray [Node exampleNumber []]]]"

subsection \<open>Parsing one number token as an unsigned 32-bit integer\<close>

text \<open>
  Modelled from the spec: \<^verbatim>\<open>JsonToken::data()\<close> is defined in Json.cpp, which is not among
  the sources. Json.h documents it as the view on the input string that defines the token;
  the size of the view is the low 55 bits of \<^verbatim>\<open>_sizeFlagsParsedTypeType\<close>
  ("Size is the remaining 55 bits").
\<close>

definition data :: "string \<Rightarrow> JsonToken \<Rightarrow> string" where
  "data input t =
     take (unat (m_sizeFlagsParsedTypeType t AND SizeMask)) (drop (m_data t) input)"

text \<open>
  A parse either gives a value or fails. It fails silently when the token is not of the
  type asked for, and with a printed error when the value is invalid.
\<close>

datatype parseError = InvalidLiteral | FractionOrExponent | Negative | TooLarge

datatype failure = NotOfThatType | Printed parseError

definition isDigit :: "char \<Rightarrow> bool" where
  "isDigit c = (c \<in> set ''0123456789'')"

definition digitValue :: "char \<Rightarrow> nat" where
  "digitValue c = of_char c - of_char CHR ''0''"

definition decimal :: "string \<Rightarrow> nat" where
  "decimal s = foldl (\<lambda>value c. 10 * value + digitValue c) 0 s"

text \<open>
  Modelled from the spec: \<^verbatim>\<open>JsonToken::parseUnsignedInt()\<close> is declared in Json.h and defined
  in Json.cpp, which is not among the sources. Section 4.3 of the spec: integer kinds
  "reject a present fractional part or exponent even if the numeric value is integral",
  "unsigned kinds additionally reject a leading minus", and a 32-bit kind requires that the
  value "fits in 32 bits". Json.h: "If the token is not a Type::Number, returns NullOpt.
  If it is, but is not a valid value, has a fractional or exponent part, is negative or
  doesn't fit into a 32-bit representation, prints an error and returns NullOpt. If the
  value is already parsed as a ParsedType::UnsignedInt, returns the cached value." What is
  left after these rejections is valid when it is a non-empty run of decimal digits.
\<close>

definition parseUnsignedIntLiteral :: "string \<Rightarrow> failure + 32 word" where
  "parseUnsignedIntLiteral s =
     (if \<exists>c \<in> set s. c = CHR ''.'' \<or> c = CHR ''e'' \<or> c = CHR ''E''
      then Inl (Printed FractionOrExponent)
      else if take 1 s = ''-'' then Inl (Printed Negative)
      else if s = [] \<or> \<not> list_all isDigit s then Inl (Printed InvalidLiteral)
      else if 2 ^ 32 \<le> decimal s then Inl (Printed TooLarge)
      else Inr (of_nat (decimal s)))"

definition parseUnsignedInt :: "string \<Rightarrow> JsonToken \<Rightarrow> failure + 32 word" where
  "parseUnsignedInt input t =
     (if type t \<noteq> Type_Number then Inl NotOfThatType
      else if parsedType t = ParsedType_UnsignedInt then Inr (m_parsedUnsignedInt t)
      else parseUnsignedIntLiteral (data input t))"

text \<open>The document \<^verbatim>\<open>42\<close>: one unparsed Number token of 2 bytes.\<close>

definition example42 :: JsonToken where
  "example42 = \<lparr>m_data = 0, m_sizeFlagsParsedTypeType = TypeNumber OR 2, m_childCount = 0\<rparr>"

section \<open>Properties\<close>

subsection \<open>isParsed() against parsedType()\<close>






text \<open>On the unparsed \<^verbatim>\<open>null\<close> both accessors say not parsed.\<close>

lemma isParsed32_unparsed_example:
  "m32_childCountFlagsTypeNan exampleNull32 AND NanMask = NanMask \<and>
   \<not> isParsed32 exampleNull32 \<and> parsedType32 exampleNull32 = ParsedType32_None"
  by (simp add: isParsed32_def parsedType32_def exampleNull32_def NanMask_def TypeNull32_def
      FlagParsed32_def)

subsection \<open>The typed getters\<close>

lemmas flag_defs = TypeMask_def TypeObject_def TypeArray_def TypeNull_def TypeBool_def
  TypeNumber_def TypeString_def ParsedTypeMask_def ParsedTypeOther_def FlagStringKey_def
  Type_Object_def Type_Array_def Type_Null_def Type_Bool_def Type_Number_def Type_String_def

text \<open>
  C9. Every typed getter fails fast, by a failed assertion, whenever the token does not
  carry the type and parsed kind the getter is for, and otherwise returns the value cached
  in the token: \<^verbatim>\<open>asNull()\<close>, \<^verbatim>\<open>asBool()\<close> and \<^verbatim>\<open>asString()\<close> require the token type and
  \<^verbatim>\<open>isParsed()\<close>, the numeric getters require \<^verbatim>\<open>parsedType()\<close> to be exactly their kind,
  and \<^verbatim>\<open>asSize()\<close> requires \<^verbatim>\<open>ParsedType::Size\<close>, the unsigned 64-bit kind of this build.
\<close>

theorem typed_getters:
  "(if type t = Type_Null \<and> isParsed t then asNull t = Inr () else failsFast (asNull t)) \<and>
   (if type t = Type_Bool \<and> isParsed t then asBool t = Inr (m_parsedBool t)
    else failsFast (asBool t)) \<and>
   (if parsedType t = ParsedType_Double then asDouble t = Inr (m_parsedDouble t)
    else failsFast (asDouble t)) \<and>
   (if parsedType t = ParsedType_Float then asFloat t = Inr (m_parsedFloat t)
    else failsFast (asFloat t)) \<and>
   (if parsedType t = ParsedType_UnsignedInt then asUnsignedInt t = Inr (m_parsedUnsignedInt t)
    else failsFast (asUnsignedInt t)) \<and>
   (if parsedType t = ParsedType_Int then asInt t = Inr (m_parsedInt t)
    else failsFast (asInt t)) \<and>
   (if parsedType t = ParsedType_UnsignedLong then asUnsignedLong t = Inr (m_parsedUnsignedLong t)
    else failsFast (asUnsignedLong t)) \<and>
   (if parsedType t = ParsedType_Long then asLong t = Inr (m_parsedLong t)
    else failsFast (asLong t)) \<and>
   (if parsedType t = ParsedType_Size then asSize t = Inr (m_parsedUnsignedLong t)
    else failsFast (asSize t)) \<and>
   (if type t = Type_String \<and> isParsed t then asString parsedString t = Inr (parsedString t)
    else failsFast (asString parsedString t))"
proof (intro conjI)
  show "if type t = Type_Null \<and> isParsed t then asNull t = Inr () else failsFast (asNull t)"
    by (simp add: asNull_def failsFast_def)
  show "if type t = Type_Bool \<and> isParsed t then asBool t = Inr (m_parsedBool t)
    else failsFast (asBool t)"
    by (simp add: asBool_def failsFast_def)
  show "if parsedType t = ParsedType_Double then asDouble t = Inr (m_parsedDouble t)
    else failsFast (asDouble t)"
    by (simp add: asDouble_def failsFast_def)
  show "if parsedType t = ParsedType_Float then asFloat t = Inr (m_parsedFloat t)
    else failsFast (asFloat t)"
    by (simp add: asFloat_def failsFast_def)
  show "if parsedType t = ParsedType_UnsignedInt then asUnsignedInt t = Inr (m_parsedUnsignedInt t)
    else failsFast (asUnsignedInt t)"
    by (simp add: asUnsignedInt_def failsFast_def)
  show "if parsedType t = ParsedType_Int then asInt t = Inr (m_parsedInt t)
    else failsFast (asInt t)"
    by (simp add: asInt_def failsFast_def)
  show "if parsedType t = ParsedType_UnsignedLong then asUnsignedLong t = Inr (m_parsedUnsignedLong t)
    else failsFast (asUnsignedLong t)"
    by (simp add: asUnsignedLong_def failsFast_def)
  show "if parsedType t = ParsedType_Long then asLong t = Inr (m_parsedLong t)
    else failsFast (asLong t)"
    by (simp add: asLong_def failsFast_def)
  show "if parsedType t = ParsedType_Size then asSize t = Inr (m_parsedUnsignedLong t)
    else failsFast (asSize t)"
    by (simp add: asSize_def failsFast_def)
  show "if type t = Type_String \<and> isParsed t then asString parsedString t = Inr (parsedString t)
    else failsFast (asString parsedString t)"
    by (simp add: asString_def failsFast_def)
qed

text \<open>On the parsed \<^verbatim>\<open>true\<close>: \<^verbatim>\<open>asBool()\<close> gives the value, the other getters fail.\<close>

theorem typed_getters_witness:
  "asBool exampleBool = Inr True \<and> failsFast (asNull exampleBool) \<and>
   failsFast (asDouble exampleBool) \<and> failsFast (asUnsignedInt exampleBool)"
  using typed_getters [of exampleBool]
  by (simp add: exampleBool_def type_def isParsed_def parsedType_def m_parsedBool_def flag_defs
      ParsedType_Double_def ParsedType_UnsignedInt_def)

subsection \<open>Token trees and their arrays\<close>

lemma length_subtrees: "length (subtrees r) = length (tokens r)"
proof (induction r)
  case (Node t cs)
  then have e: "map (length \<circ> subtrees) cs = map (length \<circ> tokens) cs"
    by simp
  show ?case
    by (simp add: length_concat e)
qed

lemma map_root_subtrees: "map root (subtrees r) = tokens r"
proof (induction r)
  case (Node t cs)
  then have e: "map (map root \<circ> subtrees) cs = map tokens cs"
    by simp
  show ?case
    by (simp add: map_concat e)
qed

lemma root_subtree: "i < length (tokens r) \<Longrightarrow> root (subtrees r ! i) = tokens r ! i"
  using map_root_subtrees [of r] by (metis length_subtrees nth_map)

lemma subtree_in_set: "i < length (tokens r) \<Longrightarrow> subtrees r ! i \<in> set (subtrees r)"
  by (simp add: length_subtrees)

lemma tokens_nonempty: "0 < length (tokens n)"
  by (cases n) simp

lemma wellFormed_subtrees: "wellFormed r \<Longrightarrow> n \<in> set (subtrees r) \<Longrightarrow> wellFormed n"
proof (induction r)
  case (Node t cs)
  from Node.prems(2) consider "n = Node t cs" | c where "c \<in> set cs" "n \<in> set (subtrees c)"
    by auto
  then show ?case
  proof cases
    case 1
    with Node.prems(1) show ?thesis by simp
  next
    case 2
    moreover from Node.prems(1) 2 have "wellFormed c" by simp
    ultimately show ?thesis using Node.IH by blast
  qed
qed

text \<open>
  The subtree headed by token \<open>i\<close> lies in the array as one block that starts at \<open>i\<close>:
  first for the children of one token, then for a tree.
\<close>

lemma forest_split:
  assumes "\<And>c i. c \<in> set cs \<Longrightarrow> i < length (tokens c) \<Longrightarrow>
     \<exists>pre post. tokens c = pre @ tokens (subtrees c ! i) @ post \<and> length pre = i"
    and "j < length (concat (map tokens cs))"
  shows "\<exists>pre post. concat (map tokens cs) = pre @ tokens (concat (map subtrees cs) ! j) @ post \<and>
     length pre = j"
  using assms
proof (induction cs arbitrary: j)
  case Nil
  then show ?case by simp
next
  case (Cons c cs)
  show ?case
  proof (cases "j < length (tokens c)")
    case True
    with Cons.prems(1) [of c j] obtain pre post
      where "tokens c = pre @ tokens (subtrees c ! j) @ post" "length pre = j"
      by auto
    with True have "concat (map tokens (c # cs)) =
        pre @ tokens (concat (map subtrees (c # cs)) ! j) @ (post @ concat (map tokens cs)) \<and>
        length pre = j"
      by (simp add: nth_append length_subtrees)
    then show ?thesis by blast
  next
    case False
    define k where "k = j - length (tokens c)"
    from False Cons.prems(2) have k: "k < length (concat (map tokens cs))"
      by (simp add: k_def)
    have "\<exists>pre post. concat (map tokens cs) = pre @ tokens (concat (map subtrees cs) ! k) @ post \<and>
       length pre = k"
      using Cons.IH [OF _ k] Cons.prems(1) by simp
    then obtain pre post
      where "concat (map tokens cs) = pre @ tokens (concat (map subtrees cs) ! k) @ post"
        "length pre = k"
      by blast
    with False have "concat (map tokens (c # cs)) =
        (tokens c @ pre) @ tokens (concat (map subtrees (c # cs)) ! j) @ post \<and>
        length (tokens c @ pre) = j"
      by (simp add: nth_append length_subtrees k_def)
    then show ?thesis by blast
  qed
qed

lemma tokens_split:
  "i < length (tokens r) \<Longrightarrow>
     \<exists>pre post. tokens r = pre @ tokens (subtrees r ! i) @ post \<and> length pre = i"
proof (induction r arbitrary: i)
  case (Node t cs)
  show ?case
  proof (cases i)
    case 0
    then have "tokens (Node t cs) = [] @ tokens (subtrees (Node t cs) ! i) @ [] \<and>
        length ([]::JsonToken list) = i"
      by simp
    then show ?thesis by blast
  next
    case (Suc j)
    with Node.prems have j: "j < length (concat (map tokens cs))" by simp
    from forest_split [OF _ j] Node.IH obtain pre post
      where "concat (map tokens cs) = pre @ tokens (concat (map subtrees cs) ! j) @ post"
        "length pre = j"
      by blast
    with Suc have "tokens (Node t cs) = (t # pre) @ tokens (subtrees (Node t cs) ! i) @ post \<and>
        length (t # pre) = i"
      by simp
    then show ?thesis by blast
  qed
qed

subsection \<open>childCount() on the array of a well-formed tree\<close>

lemma type_consts_distinct:
  "Type_String \<noteq> Type_Object" "Type_String \<noteq> Type_Array" "Type_Array \<noteq> Type_Object"
  "TypeObject = Type_Object" "TypeArray = Type_Array"
  by (simp_all add: Type_String_def Type_Object_def Type_Array_def TypeObject_def TypeArray_def)

text \<open>What a token that is not a key holds under it, as \<^verbatim>\<open>childCount()\<close> reads it.\<close>

lemma nested_count:
  assumes "wellFormed (Node t cs)" and "\<not> isKey t"
  shows "(if m_sizeFlagsParsedTypeType t AND TypeMask = TypeObject \<or>
             m_sizeFlagsParsedTypeType t AND TypeMask = TypeArray
          then unat (m_childCount t) else 0) = length (concat (map tokens cs))"
  using assms by (auto simp: type_def type_consts_distinct)

lemma childCount_at:
  assumes wf: "wellFormed n"
  shows "childCount (pre @ tokens n @ post) (length pre) = length (tokens n) - 1"
proof (cases n)
  case (Node t cs)
  show ?thesis
  proof (cases "isKey t")
    case True
    with wf Node obtain v where cs: "cs = [v]" and v: "\<not> isKey (root v)" "wellFormed v"
      and ty: "type t = Type_String"
      by (cases cs) auto
    obtain tv cvs where vv: "v = Node tv cvs" by (cases v)
    from v vv have nk: "\<not> isKey tv" and wfv: "wellFormed (Node tv cvs)" by simp_all
    from ty have nc: "\<not> (m_sizeFlagsParsedTypeType t AND TypeMask = TypeObject \<or>
        m_sizeFlagsParsedTypeType t AND TypeMask = TypeArray)"
      by (auto simp: type_def type_consts_distinct)
    have l: "(pre @ tokens n @ post) ! length pre = t"
      "(pre @ tokens n @ post) ! (length pre + 1) = tv"
      "length pre + 1 < length (pre @ tokens n @ post)"
      by (simp_all add: Node cs vv nth_append)
    from True have k: "m_sizeFlagsParsedTypeType t AND FlagStringKey \<noteq> 0"
      by (simp add: isKey_def)
    have "childCount (pre @ tokens n @ post) (length pre) =
        (if m_sizeFlagsParsedTypeType tv AND TypeMask = TypeObject \<or>
            m_sizeFlagsParsedTypeType tv AND TypeMask = TypeArray
         then unat (m_childCount tv) else 0) + 1"
      unfolding childCount_def Let_def l using nc k l(3) by auto
    also have "\<dots> = length (concat (map tokens cvs)) + 1"
      using nested_count [OF wfv nk] by simp
    also have "\<dots> = length (tokens n) - 1"
      by (simp add: Node cs vv)
    finally show ?thesis .
  next
    case False
    have l: "(pre @ tokens n @ post) ! length pre = t"
      by (simp add: Node nth_append)
    from False have k: "\<not> m_sizeFlagsParsedTypeType t AND FlagStringKey \<noteq> 0"
      by (simp add: isKey_def)
    have "childCount (pre @ tokens n @ post) (length pre) =
        (if m_sizeFlagsParsedTypeType t AND TypeMask = TypeObject \<or>
            m_sizeFlagsParsedTypeType t AND TypeMask = TypeArray
         then unat (m_childCount t) else 0)"
      unfolding childCount_def Let_def l using k by auto
    also have "\<dots> = length (concat (map tokens cs))"
      using nested_count [of t cs] wf Node False by simp
    also have "\<dots> = length (tokens n) - 1"
      by (simp add: Node)
    finally show ?thesis .
  qed
qed

lemma childCount_subtree:
  assumes "wellFormed r" and "i < length (tokens r)"
  shows "childCount (tokens r) i + 1 = length (tokens (subtrees r ! i))"
proof -
  let ?n = "subtrees r ! i"
  from tokens_split [OF assms(2)] obtain pre post
    where split: "tokens r = pre @ tokens ?n @ post" and len: "length pre = i"
    by blast
  have wfn: "wellFormed ?n"
    using wellFormed_subtrees [OF assms(1) subtree_in_set [OF assms(2)]] .
  have "childCount (tokens r) i = length (tokens ?n) - 1"
    using childCount_at [OF wfn, of pre post] split len by simp
  with tokens_nonempty [of ?n] show ?thesis by simp
qed

lemmas example_defs = exampleDocument_def exampleObject_def exampleKey_def exampleArray_def
  exampleNumber_def

lemma example_wellFormed: "wellFormed exampleDocument"
  by (simp add: example_defs isKey_def type_def flag_defs)

text \<open>
  C1. For every token of a document's token array, \<^verbatim>\<open>next()\<close> is the token's own position
  plus \<^verbatim>\<open>childCount()\<close> plus one, and that is the position right after the token's whole
  subtree: the tokens from the token up to \<^verbatim>\<open>next()\<close> are exactly the tokens of the subtree
  the token heads, and \<^verbatim>\<open>next()\<close> is at most one past the end of the array.
\<close>

theorem next_skips_subtree:
  assumes "wellFormed r" and "this < length (tokens r)"
  shows "next (tokens r) this = this + childCount (tokens r) this + 1 \<and>
         root (subtrees r ! this) = tokens r ! this \<and>
         next (tokens r) this = this + length (tokens (subtrees r ! this)) \<and>
         take (next (tokens r) this - this) (drop this (tokens r)) = tokens (subtrees r ! this) \<and>
         next (tokens r) this \<le> length (tokens r)"
proof -
  let ?n = "subtrees r ! this"
  from tokens_split [OF assms(2)] obtain pre post
    where split: "tokens r = pre @ tokens ?n @ post" and len: "length pre = this"
    by blast
  have n1: "next (tokens r) this = this + length (tokens ?n)"
    using childCount_subtree [OF assms] by (simp add: next_def)
  have rt: "root ?n = tokens r ! this"
    using assms(2) by (rule root_subtree)
  have tk: "take (length (tokens ?n)) (drop this (tokens r)) = tokens ?n"
  proof -
    have "drop this (tokens r) = tokens ?n @ post"
      using split len by (metis append_eq_conv_conj)
    then show ?thesis by simp
  qed
  have le: "next (tokens r) this \<le> length (tokens r)"
  proof -
    have "length (tokens r) = this + length (tokens ?n) + length post"
      using split len by (metis length_append add.assoc)
    with n1 show ?thesis by simp
  qed
  from n1 rt tk le show ?thesis by (simp add: next_def)
qed

text \<open>
  In \<^verbatim>\<open>{"a":[1]}\<close> the key \<^verbatim>\<open>"a"\<close> is token 1 and heads the three tokens 1, 2 and 3; its
  \<^verbatim>\<open>next()\<close> is 4, one past the end of the array.
\<close>

theorem next_skips_subtree_witness:
  "wellFormed exampleDocument \<and> length (tokens exampleDocument) = 4 \<and>
   tokens (subtrees exampleDocument ! 1) = [exampleKey, exampleArray, exampleNumber] \<and>
   next (tokens exampleDocument) 1 = 4"
proof -
  have lt: "(1::nat) < length (tokens exampleDocument)"
    by (simp add: exampleDocument_def)
  have sub: "tokens (subtrees exampleDocument ! 1) = [exampleKey, exampleArray, exampleNumber]"
    by (simp add: exampleDocument_def)
  from next_skips_subtree [OF example_wellFormed lt] sub example_wellFormed
  show ?thesis by (simp add: exampleDocument_def)
qed




subsection \<open>firstChild() against childCount()\<close>

text \<open>In a document only String tokens carry the key flag.\<close>

lemma wellFormed_key_is_String:
  assumes "wellFormed r" and "this < length (tokens r)"
  shows "\<not> isKey (tokens r ! this) \<or> type (tokens r ! this) = Type_String"
proof -
  let ?n = "subtrees r ! this"
  have wfn: "wellFormed ?n"
    using wellFormed_subtrees [OF assms(1) subtree_in_set [OF assms(2)]] .
  have rt: "root ?n = tokens r ! this"
    using assms(2) by (rule root_subtree)
  obtain t cs where n: "?n = Node t cs" by (cases ?n)
  with wfn rt show ?thesis by (auto split: if_splits)
qed

text \<open>
  C8. For every token on which the key flag is set only if it is a String (every token of
  a document is one), \<^verbatim>\<open>firstChild()\<close> is the position right after the token exactly when
  \<^verbatim>\<open>childCount()\<close> is greater than zero, and null otherwise. In particular it is null for
  every Null, Bool and Number token and for every Object and Array without children.
\<close>

theorem firstChild_iff_childCount:
  assumes "this < length ts" and "\<not> isKey (ts ! this) \<or> type (ts ! this) = Type_String"
  shows "firstChild ts this = (if 0 < childCount ts this then Some (this + 1) else None) \<and>
         (type (ts ! this) = Type_Null \<or> type (ts ! this) = Type_Bool \<or>
          type (ts ! this) = Type_Number \<longrightarrow> firstChild ts this = None) \<and>
         ((type (ts ! this) = Type_Object \<or> type (ts ! this) = Type_Array) \<and>
          childCount ts this = 0 \<longrightarrow> firstChild ts this = None)"
proof -
  let ?t = "ts ! this"
  let ?container = "m_sizeFlagsParsedTypeType ?t AND TypeMask = TypeObject \<or>
      m_sizeFlagsParsedTypeType ?t AND TypeMask = TypeArray"
  have main: "firstChild ts this = (if 0 < childCount ts this then Some (this + 1) else None)"
  proof (cases ?container)
    case True
    then have "type ?t \<noteq> Type_String"
      by (auto simp: type_def flag_defs)
    with assms(2) have "m_sizeFlagsParsedTypeType ?t AND FlagStringKey = 0"
      by (simp add: isKey_def)
    with True show ?thesis
      by (simp add: firstChild_def childCount_def Let_def unat_gt_0)
  next
    case False
    then show ?thesis
      by (simp add: firstChild_def childCount_def Let_def)
  qed
  have scalar: "type ?t = Type_Null \<or> type ?t = Type_Bool \<or> type ?t = Type_Number \<longrightarrow>
      firstChild ts this = None"
  proof
    assume h: "type ?t = Type_Null \<or> type ?t = Type_Bool \<or> type ?t = Type_Number"
    then have "type ?t \<noteq> Type_String" "\<not> ?container"
      by (auto simp: type_def flag_defs)
    with assms(2) show "firstChild ts this = None"
      by (simp add: firstChild_def Let_def isKey_def)
  qed
  from main scalar show ?thesis by simp
qed

text \<open>
  In \<^verbatim>\<open>{"a":[1]}\<close> the array is token 2 and has the number as its first child; the number,
  token 3, has none.
\<close>

theorem firstChild_iff_childCount_witness:
  "firstChild (tokens exampleDocument) 2 = Some 3 \<and> childCount (tokens exampleDocument) 2 = 1 \<and>
   type (tokens exampleDocument ! 3) = Type_Number \<and> firstChild (tokens exampleDocument) 3 = None"
proof -
  have k2: "\<not> isKey (tokens exampleDocument ! 2) \<or> type (tokens exampleDocument ! 2) = Type_String"
    and k3: "\<not> isKey (tokens exampleDocument ! 3) \<or> type (tokens exampleDocument ! 3) = Type_String"
    by (simp_all add: example_defs isKey_def flag_defs)
  have c2: "childCount (tokens exampleDocument) 2 = 1"
    and c3: "childCount (tokens exampleDocument) 3 = 0"
    and t3: "type (tokens exampleDocument ! 3) = Type_Number"
    by (simp_all add: example_defs childCount_def type_def flag_defs)
  have l2: "(2::nat) < length (tokens exampleDocument)"
    and l3: "(3::nat) < length (tokens exampleDocument)"
    by (simp_all add: exampleDocument_def)
  from firstChild_iff_childCount [OF l2 k2] firstChild_iff_childCount [OF l3 k3] c2 c3 t3
  show ?thesis by simp
qed

subsection \<open>parseUnsignedInt()\<close>

lemmas parse_defs = parseUnsignedIntLiteral_def isDigit_def decimal_def digitValue_def

text \<open>
  C3. \<^verbatim>\<open>parseUnsignedInt()\<close> on a Number token (not already parsed as an unsigned int, in
  which case the cached value is returned) whose text is \<^verbatim>\<open>-1\<close> fails with an error; on
  \<^verbatim>\<open>4294967296\<close> it fails, the value does not fit in 32 bits; on \<^verbatim>\<open>42\<close> it succeeds with
  42; on \<^verbatim>\<open>42.0\<close> it fails because of the fractional part.
\<close>

theorem parseUnsignedInt_policy:
  assumes "type t = Type_Number" and "parsedType t \<noteq> ParsedType_UnsignedInt"
  shows "(data input t = ''-1'' \<longrightarrow> parseUnsignedInt input t = Inl (Printed Negative)) \<and>
         (data input t = ''4294967296'' \<longrightarrow> parseUnsignedInt input t = Inl (Printed TooLarge)) \<and>
         (data input t = ''42'' \<longrightarrow> parseUnsignedInt input t = Inr 42) \<and>
         (data input t = ''42.0'' \<longrightarrow>
            parseUnsignedInt input t = Inl (Printed FractionOrExponent))"
proof (intro conjI impI)
  assume "data input t = ''-1''"
  with assms show "parseUnsignedInt input t = Inl (Printed Negative)"
    by (simp add: parseUnsignedInt_def parse_defs)
next
  assume "data input t = ''4294967296''"
  with assms show "parseUnsignedInt input t = Inl (Printed TooLarge)"
    by (simp add: parseUnsignedInt_def parse_defs)
next
  assume "data input t = ''42''"
  with assms show "parseUnsignedInt input t = Inr 42"
    by (simp add: parseUnsignedInt_def parse_defs)
next
  assume "data input t = ''42.0''"
  with assms show "parseUnsignedInt input t = Inl (Printed FractionOrExponent)"
    by (simp add: parseUnsignedInt_def parse_defs)
qed

text \<open>The one token of the document \<^verbatim>\<open>42\<close>.\<close>

theorem parseUnsignedInt_policy_witness:
  "type example42 = Type_Number \<and> data ''42'' example42 = ''42'' \<and>
   parseUnsignedInt ''42'' example42 = Inr 42"
proof -
  have ty: "type example42 = Type_Number"
    and un: "parsedType example42 \<noteq> ParsedType_UnsignedInt"
    and d: "data ''42'' example42 = ''42''"
    by (simp_all add: example42_def type_def parsedType_def data_def SizeMask_def flag_defs
        ParsedType_UnsignedInt_def)
  from parseUnsignedInt_policy [OF ty un, of "''42''"] ty d show ?thesis by simp
qed

end
